theory Spec2Isabelle
  imports Main "HOL-Library.Word" "HOL-Library.Sublist"
begin

section \<open>Data model: the parsed document as the extractor reads it\<close>

text \<open>
  The extractor reads three things of a parsed HTML node (package html): its
  \<^verbatim>\<open>Type\<close>, its \<^verbatim>\<open>DataAtom\<close> and its ordered attribute list
  \<^verbatim>\<open>Attr\<close>. \<^verbatim>\<open>NodeType\<close> is the enumeration of package html in its declared
  order; an \<^verbatim>\<open>Atom\<close> is a 32-bit code and \<^verbatim>\<open>atom.A\<close>, the anchor tag, is
  the code 1.
\<close>

datatype NodeType = ErrorNode | TextNode | DocumentNode | ElementNode | CommentNode | DoctypeNode

type_synonym Atom = "32 word"

definition atom_A :: Atom where
  "atom_A = 0x1"

record Attribute =
  Namespace :: string
  Key :: string
  Val :: string

record Node =
  Type :: NodeType
  DataAtom :: Atom
  Data :: string
  Attr :: "Attribute list"

text \<open>
  The two package-level error values, and the run-time panic of Go on a nil
  pointer dereference. A function that can panic returns \<open>panic + 'a\<close>.
\<close>

datatype error = InvalidNode | InvalidNodeAttributeMissing

datatype panic = NilPointerDereference

text \<open>
  A \<^verbatim>\<open>*goquery.Selection\<close> holds a slice of node pointers; a pointer that may be
  nil is an \<open>option\<close>. A \<^verbatim>\<open>goquery.Document\<close> embeds a \<^verbatim>\<open>*Selection\<close> and
  has the field \<^verbatim>\<open>Url\<close>, a \<^verbatim>\<open>*url.URL\<close> that may be nil
  (\<^verbatim>\<open>goquery.NewDocumentFromNode\<close> leaves it nil). \<^verbatim>\<open>doc.Find\<close> is the method
  of the embedded selection. The query facility is an external collaborator, so
  \<^verbatim>\<open>Find\<close> is a field of the document: a function from selectors to what the
  call does, which is a nil pointer dereference (on a document whose embedded
  selection is nil), or the pointer it returns, nil or a selection.
\<close>

record Selection =
  Nodes :: "Node option list"

record 'u Document =
  Url :: "'u option"
  Find :: "string \<Rightarrow> panic + Selection option"

section \<open>The URL library as a parameter\<close>

text \<open>
  \<^verbatim>\<open>net/url\<close> is not part of the repository. The extractor uses three of its
  operations: \<^verbatim>\<open>url.Parse\<close> (which may fail), \<^verbatim>\<open>ResolveReference\<close> and
  \<^verbatim>\<open>String\<close>. The functions of the repository take them as a record, over any
  type \<open>'u\<close> of URL values. \<^verbatim>\<open>ResolveReference\<close> is a method on a pointer:
  \<open>url_ResolveReference\<close> is the method on a receiver that is set, and
  \<open>url_ResolveReference_nil\<close> is what the method does on a nil receiver, where
  it may dereference the receiver and panic.
\<close>

record 'u url_pkg =
  url_Parse :: "string \<Rightarrow> 'u option"
  url_ResolveReference :: "'u \<Rightarrow> 'u \<Rightarrow> 'u"
  url_ResolveReference_nil :: "'u \<Rightarrow> panic + 'u"
  url_String :: "'u \<Rightarrow> string"

text \<open>
  \<^verbatim>\<open>strings.LastIndex(s, substr)\<close>: the index of the last instance of
  \<^verbatim>\<open>substr\<close> in \<^verbatim>\<open>s\<close>, or -1 when there is none.
\<close>

definition LastIndex :: "string \<Rightarrow> string \<Rightarrow> int" where
  "LastIndex s substr =
     (case filter (\<lambda>i. take (length substr) (drop i s) = substr) (rev [0..<Suc (length s)]) of
        [] \<Rightarrow> - 1
      | i # _ \<Rightarrow> int i)"

section \<open>HttpFetcher: normaliseUrl, dedupeUrls, extractValidHref\<close>

text \<open>
  The first statement of \<^verbatim>\<open>normaliseUrl\<close> (commented "Strip off fragment"):
  \<^verbatim>\<open>i := strings.LastIndex(urlString, "#"); if i >= 0 { urlString = urlString[:i] }\<close>.
\<close>

definition stripFragment :: "string \<Rightarrow> string" where
  "stripFragment urlString =
     (let i = LastIndex urlString ''#''
      in if i \<ge> 0 then take (nat i) urlString else urlString)"

text \<open>
  \<^verbatim>\<open>normaliseUrl\<close> returns nil (here \<open>None\<close>) when \<^verbatim>\<open>url.Parse\<close> fails, and
  otherwise the parsed reference resolved against the parent. \<open>normaliseUrl\<close>
  is the function at a parent that is set; \<open>normaliseUrl_ptr\<close> is the function
  at the pointer it receives, which \<^verbatim>\<open>parent.ResolveReference(uri)\<close> hands to
  the library as it is, nil included.
\<close>

definition normaliseUrl :: "'u url_pkg \<Rightarrow> 'u \<Rightarrow> string \<Rightarrow> 'u option" where
  "normaliseUrl lib parent urlString =
     (case url_Parse lib (stripFragment urlString) of
        None \<Rightarrow> None
      | Some uri \<Rightarrow> Some (url_ResolveReference lib parent uri))"

definition normaliseUrl_ptr :: "'u url_pkg \<Rightarrow> 'u option \<Rightarrow> string \<Rightarrow> panic + 'u option" where
  "normaliseUrl_ptr lib parent urlString =
     (case parent of
        Some p \<Rightarrow> Inr (normaliseUrl lib p urlString)
      | None \<Rightarrow>
          (case url_Parse lib (stripFragment urlString) of
             None \<Rightarrow> Inr None
           | Some uri \<Rightarrow>
               (case url_ResolveReference_nil lib uri of
                  Inl p \<Rightarrow> Inl p
                | Inr resolved \<Rightarrow> Inr (Some resolved))))"


text \<open>
  \<^verbatim>\<open>dedupeUrls\<close>: one pass with the map \<^verbatim>\<open>seen\<close> from canonical strings and
  the output slice \<^verbatim>\<open>ret\<close>.
\<close>

fun dedupeLoop :: "('u \<Rightarrow> string) \<Rightarrow> 'u list \<Rightarrow> (string \<rightharpoonup> bool) \<Rightarrow> 'u list \<Rightarrow> 'u list" where
  "dedupeLoop str [] seen ret = ret"
| "dedupeLoop str (u # us) seen ret =
     (case seen (str u) of
        Some ok \<Rightarrow> dedupeLoop str us seen ret
      | None \<Rightarrow> dedupeLoop str us (seen(str u \<mapsto> True)) (ret @ [u]))"

definition dedupeUrls :: "'u url_pkg \<Rightarrow> 'u list \<Rightarrow> 'u list" where
  "dedupeUrls lib original = dedupeLoop (url_String lib) original Map.empty []"

text \<open>
  \<^verbatim>\<open>extractValidHref\<close>: the node must be a non-nil anchor element; the loop
  over its attributes returns at the first \<^verbatim>\<open>href\<close> with a non-empty value.
\<close>

fun hrefLoop :: "Attribute list \<Rightarrow> error + string" where
  "hrefLoop [] = Inl InvalidNodeAttributeMissing"
| "hrefLoop (a # as) =
     (if Key a = ''href'' \<and> Val a \<noteq> '''' then Inr (Val a) else hrefLoop as)"

definition extractValidHref :: "Node option \<Rightarrow> error + string" where
  "extractValidHref n =
     (case n of
        None \<Rightarrow> Inl InvalidNode
      | Some nd \<Rightarrow>
          if Type nd \<noteq> ElementNode \<or> DataAtom nd \<noteq> atom_A then Inl InvalidNode
          else hrefLoop (Attr nd))"

section \<open>HttpFetcher: extractLinks\<close>

text \<open>
  The loop of \<^verbatim>\<open>extractLinks\<close> over \<^verbatim>\<open>sel.Nodes\<close>, with the slice
  \<^verbatim>\<open>urls\<close> as accumulator. A nil slice and an empty slice are both the empty
  list. The error result of \<^verbatim>\<open>extractLinks\<close> is nil on every return. First the
  loop at a parent that is set, where \<^verbatim>\<open>normaliseUrl\<close> cannot panic.
\<close>

fun linksLoop :: "'u url_pkg \<Rightarrow> 'u \<Rightarrow> Node option list \<Rightarrow> 'u list \<Rightarrow> 'u list" where
  "linksLoop lib parent [] urls = urls"
| "linksLoop lib parent (n # ns) urls =
     (case extractValidHref n of
        Inl err \<Rightarrow> linksLoop lib parent ns urls
      | Inr href \<Rightarrow>
          if href = '''' then linksLoop lib parent ns urls
          else (case normaliseUrl lib parent href of
                  None \<Rightarrow> linksLoop lib parent ns urls
                | Some uri \<Rightarrow> linksLoop lib parent ns (urls @ [uri])))"

text \<open>
  The same loop at the pointer \<^verbatim>\<open>doc.Url\<close>: a panic of \<^verbatim>\<open>normaliseUrl\<close> ends
  it.
\<close>

fun linksLoop_ptr :: "'u url_pkg \<Rightarrow> 'u option \<Rightarrow> Node option list \<Rightarrow> 'u list \<Rightarrow> panic + 'u list" where
  "linksLoop_ptr lib parent [] urls = Inr urls"
| "linksLoop_ptr lib parent (n # ns) urls =
     (case extractValidHref n of
        Inl err \<Rightarrow> linksLoop_ptr lib parent ns urls
      | Inr href \<Rightarrow>
          if href = '''' then linksLoop_ptr lib parent ns urls
          else (case normaliseUrl_ptr lib parent href of
                  Inl p \<Rightarrow> Inl p
                | Inr None \<Rightarrow> linksLoop_ptr lib parent ns urls
                | Inr (Some uri) \<Rightarrow> linksLoop_ptr lib parent ns (urls @ [uri])))"

text \<open>
  \<^verbatim>\<open>extractLinks\<close>: \<^verbatim>\<open>doc.Find\<close> dereferences the document; a nil selection
  gives no links; the loop runs with \<^verbatim>\<open>doc.Url\<close> as parent.
\<close>

definition extractLinks :: "'u url_pkg \<Rightarrow> 'u Document option \<Rightarrow> panic + ('u list \<times> error option)" where
  "extractLinks lib doc =
     (case doc of
        None \<Rightarrow> Inl NilPointerDereference
      | Some d \<Rightarrow>
          (case Find d ''a'' of
             Inl p \<Rightarrow> Inl p
           | Inr None \<Rightarrow> Inr ([], None)
           | Inr (Some sel) \<Rightarrow>
               (case linksLoop_ptr lib (Url d) (Nodes sel) [] of
                  Inl p \<Rightarrow> Inl p
                | Inr urls \<Rightarrow> Inr (dedupeUrls lib urls, None))))"

section \<open>HttpFetcher: extractAssets\<close>

text \<open>
  The inner loop of the image and script passes: the \<^verbatim>\<open>break\<close> stands inside
  the test \<^verbatim>\<open>uri != nil\<close>, so the loop goes on to the next attribute when a
  non-empty \<^verbatim>\<open>src\<close> does not normalise. First the three passes at a parent
  that is set.
\<close>

fun srcLoop :: "'u url_pkg \<Rightarrow> 'u \<Rightarrow> Attribute list \<Rightarrow> 'u list \<Rightarrow> 'u list" where
  "srcLoop lib parent [] assets = assets"
| "srcLoop lib parent (a # as) assets =
     (if Key a = ''src'' \<and> Val a \<noteq> '''' then
        (case normaliseUrl lib parent (Val a) of
           Some uri \<Rightarrow> assets @ [uri]
         | None \<Rightarrow> srcLoop lib parent as assets)
      else srcLoop lib parent as assets)"

fun srcNodes :: "'u url_pkg \<Rightarrow> 'u \<Rightarrow> Node option list \<Rightarrow> 'u list \<Rightarrow> 'u list" where
  "srcNodes lib parent [] assets = assets"
| "srcNodes lib parent (n # ns) assets =
     (case n of
        None \<Rightarrow> srcNodes lib parent ns assets
      | Some nd \<Rightarrow> srcNodes lib parent ns (srcLoop lib parent (Attr nd) assets))"

text \<open>
  The pass over the \<^verbatim>\<open>link\<close> nodes: one forward pass over the attributes sets
  \<^verbatim>\<open>rel\<close>, \<^verbatim>\<open>linktype\<close> and \<^verbatim>\<open>uri\<close> (each assignment overwrites), then the
  node is skipped when \<^verbatim>\<open>uri\<close> is nil and appended for the two accepted
  combinations.
\<close>

fun linkFields :: "'u url_pkg \<Rightarrow> 'u \<Rightarrow> Attribute list \<Rightarrow> string \<times> string \<times> 'u option
    \<Rightarrow> string \<times> string \<times> 'u option" where
  "linkFields lib parent [] st = st"
| "linkFields lib parent (a # as) (rel, linktype, uri) =
     (if Key a = ''rel'' then linkFields lib parent as (Val a, linktype, uri)
      else if Key a = ''type'' then linkFields lib parent as (rel, Val a, uri)
      else if Key a = ''href'' then linkFields lib parent as (rel, linktype, normaliseUrl lib parent (Val a))
      else linkFields lib parent as (rel, linktype, uri))"

definition linkNode :: "'u url_pkg \<Rightarrow> 'u \<Rightarrow> Node \<Rightarrow> 'u list \<Rightarrow> 'u list" where
  "linkNode lib parent nd assets =
     (case linkFields lib parent (Attr nd) ('''', '''', None) of
        (rel, linktype, None) \<Rightarrow> assets
      | (rel, linktype, Some uri) \<Rightarrow>
          if rel = ''stylesheet'' \<and> linktype = ''text/css'' then assets @ [uri]
          else if rel = ''shortcut icon'' then assets @ [uri]
          else assets)"

fun linkNodes :: "'u url_pkg \<Rightarrow> 'u \<Rightarrow> Node option list \<Rightarrow> 'u list \<Rightarrow> 'u list" where
  "linkNodes lib parent [] assets = assets"
| "linkNodes lib parent (n # ns) assets =
     (case n of
        None \<Rightarrow> linkNodes lib parent ns assets
      | Some nd \<Rightarrow> linkNodes lib parent ns (linkNode lib parent nd assets))"

text \<open>The three passes at the pointer \<^verbatim>\<open>doc.Url\<close>.\<close>

fun srcLoop_ptr :: "'u url_pkg \<Rightarrow> 'u option \<Rightarrow> Attribute list \<Rightarrow> 'u list \<Rightarrow> panic + 'u list" where
  "srcLoop_ptr lib parent [] assets = Inr assets"
| "srcLoop_ptr lib parent (a # as) assets =
     (if Key a = ''src'' \<and> Val a \<noteq> '''' then
        (case normaliseUrl_ptr lib parent (Val a) of
           Inl p \<Rightarrow> Inl p
         | Inr (Some uri) \<Rightarrow> Inr (assets @ [uri])
         | Inr None \<Rightarrow> srcLoop_ptr lib parent as assets)
      else srcLoop_ptr lib parent as assets)"

fun srcNodes_ptr :: "'u url_pkg \<Rightarrow> 'u option \<Rightarrow> Node option list \<Rightarrow> 'u list \<Rightarrow> panic + 'u list" where
  "srcNodes_ptr lib parent [] assets = Inr assets"
| "srcNodes_ptr lib parent (n # ns) assets =
     (case n of
        None \<Rightarrow> srcNodes_ptr lib parent ns assets
      | Some nd \<Rightarrow>
          (case srcLoop_ptr lib parent (Attr nd) assets of
             Inl p \<Rightarrow> Inl p
           | Inr assets' \<Rightarrow> srcNodes_ptr lib parent ns assets'))"

fun linkFields_ptr :: "'u url_pkg \<Rightarrow> 'u option \<Rightarrow> Attribute list \<Rightarrow> string \<times> string \<times> 'u option
    \<Rightarrow> panic + (string \<times> string \<times> 'u option)" where
  "linkFields_ptr lib parent [] st = Inr st"
| "linkFields_ptr lib parent (a # as) (rel, linktype, uri) =
     (if Key a = ''rel'' then linkFields_ptr lib parent as (Val a, linktype, uri)
      else if Key a = ''type'' then linkFields_ptr lib parent as (rel, Val a, uri)
      else if Key a = ''href'' then
        (case normaliseUrl_ptr lib parent (Val a) of
           Inl p \<Rightarrow> Inl p
         | Inr uri' \<Rightarrow> linkFields_ptr lib parent as (rel, linktype, uri'))
      else linkFields_ptr lib parent as (rel, linktype, uri))"

definition linkNode_ptr :: "'u url_pkg \<Rightarrow> 'u option \<Rightarrow> Node \<Rightarrow> 'u list \<Rightarrow> panic + 'u list" where
  "linkNode_ptr lib parent nd assets =
     (case linkFields_ptr lib parent (Attr nd) ('''', '''', None) of
        Inl p \<Rightarrow> Inl p
      | Inr (rel, linktype, None) \<Rightarrow> Inr assets
      | Inr (rel, linktype, Some uri) \<Rightarrow>
          if rel = ''stylesheet'' \<and> linktype = ''text/css'' then Inr (assets @ [uri])
          else if rel = ''shortcut icon'' then Inr (assets @ [uri])
          else Inr assets)"

fun linkNodes_ptr :: "'u url_pkg \<Rightarrow> 'u option \<Rightarrow> Node option list \<Rightarrow> 'u list \<Rightarrow> panic + 'u list" where
  "linkNodes_ptr lib parent [] assets = Inr assets"
| "linkNodes_ptr lib parent (n # ns) assets =
     (case n of
        None \<Rightarrow> linkNodes_ptr lib parent ns assets
      | Some nd \<Rightarrow>
          (case linkNode_ptr lib parent nd assets of
             Inl p \<Rightarrow> Inl p
           | Inr assets' \<Rightarrow> linkNodes_ptr lib parent ns assets'))"

text \<open>
  \<^verbatim>\<open>extractAssets\<close>: query, then pass, three times, in the order of the source.
  It reads \<^verbatim>\<open>sel.Nodes\<close> after each query with no nil test, so a nil selection
  is a nil pointer dereference there.
\<close>

definition extractAssets :: "'u url_pkg \<Rightarrow> 'u Document option \<Rightarrow> panic + ('u list \<times> error option)" where
  "extractAssets lib doc =
     (case doc of
        None \<Rightarrow> Inl NilPointerDereference
      | Some d \<Rightarrow>
          (case Find d ''img'' of
             Inl p \<Rightarrow> Inl p
           | Inr None \<Rightarrow> Inl NilPointerDereference
           | Inr (Some imgs) \<Rightarrow>
               (case srcNodes_ptr lib (Url d) (Nodes imgs) [] of
                  Inl p \<Rightarrow> Inl p
                | Inr assets1 \<Rightarrow>
                    (case Find d ''script'' of
                       Inl p \<Rightarrow> Inl p
                     | Inr None \<Rightarrow> Inl NilPointerDereference
                     | Inr (Some scripts) \<Rightarrow>
                         (case srcNodes_ptr lib (Url d) (Nodes scripts) assets1 of
                            Inl p \<Rightarrow> Inl p
                          | Inr assets2 \<Rightarrow>
                              (case Find d ''link'' of
                                 Inl p \<Rightarrow> Inl p
                               | Inr None \<Rightarrow> Inl NilPointerDereference
                               | Inr (Some links) \<Rightarrow>
                                   (case linkNodes_ptr lib (Url d) (Nodes links) assets2 of
                                      Inl p \<Rightarrow> Inl p
                                    | Inr assets3 \<Rightarrow> Inr (dedupeUrls lib assets3, None))))))))"

section \<open>main.go: the standalone extractLinks and fetch\<close>

text \<open>
  The attribute loop of the standalone \<^verbatim>\<open>extractLinks\<close> assigns \<^verbatim>\<open>href\<close> at
  every attribute whose key is \<^verbatim>\<open>href\<close>.
\<close>

fun lastHref :: "Attribute list \<Rightarrow> string \<Rightarrow> string" where
  "lastHref [] href = href"
| "lastHref (a # as) href =
     (if Key a \<noteq> ''href'' then lastHref as href else lastHref as (Val a))"

text \<open>
  The node loop reads \<^verbatim>\<open>n.Type\<close> with no nil test: a nil node is a nil
  pointer dereference.
\<close>

fun mainLinksLoop :: "Node option list \<Rightarrow> string list \<Rightarrow> panic + string list" where
  "mainLinksLoop [] urls = Inr urls"
| "mainLinksLoop (n # ns) urls =
     (case n of
        None \<Rightarrow> Inl NilPointerDereference
      | Some nd \<Rightarrow>
          if Type nd \<noteq> ElementNode \<or> DataAtom nd \<noteq> atom_A then mainLinksLoop ns urls
          else (let href = lastHref (Attr nd) ''''
                in if href = '''' then mainLinksLoop ns urls
                   else mainLinksLoop ns (urls @ [href])))"

definition extractLinks_main :: "'u Document option \<Rightarrow> panic + (string list \<times> error option)" where
  "extractLinks_main doc =
     (case doc of
        None \<Rightarrow> Inl NilPointerDereference
      | Some d \<Rightarrow>
          (case Find d ''a'' of
             Inl p \<Rightarrow> Inl p
           | Inr None \<Rightarrow> Inr ([], None)
           | Inr (Some sel) \<Rightarrow>
               (case mainLinksLoop (Nodes sel) [] of
                  Inl p \<Rightarrow> Inl p
                | Inr urls \<Rightarrow> Inr (urls, None))))"

text \<open>
  \<^verbatim>\<open>fetch\<close> of main.go: \<^verbatim>\<open>goquery.NewDocument\<close> is the retrieval
  collaborator, a parameter that gives an error or a document; the links are
  handed on as \<^verbatim>\<open>extractLinks\<close> returned them.
\<close>

definition fetch :: "(string \<Rightarrow> 'e + 'u Document) \<Rightarrow> string
    \<Rightarrow> panic + (string \<times> string list \<times> ('e + error) option)" where
  "fetch NewDocument url =
     (case NewDocument url of
        Inl err \<Rightarrow> Inr ('''', [], Some (Inl err))
      | Inr doc \<Rightarrow>
          (case extractLinks_main (Some doc) of
             Inl p \<Rightarrow> Inl p
           | Inr (urls, err) \<Rightarrow> Inr ('''', urls, map_option Inr err)))"

section \<open>A model of the URL library\<close>

text \<open>
  Modelled from the spec: the operations of \<^verbatim>\<open>net/url\<close> (\<^verbatim>\<open>url.Parse\<close>,
  \<^verbatim>\<open>URL.ResolveReference\<close>, \<^verbatim>\<open>URL.String\<close>, \<^verbatim>\<open>URL.IsAbs\<close>), which are
  not code of the repository. The spec says: parse the string as a URL
  reference, which may be absolute, scheme-relative or path-relative; a string
  that is no valid reference, such as \<^verbatim>\<open>http://[\<close>, fails to parse; resolve the
  reference against the base by the rules of RFC 3986, section 5: a relative
  reference inherits scheme and authority from the base as needed, an absolute
  one is returned unchanged; two URLs are the same when their canonical strings
  are equal. The model keeps the components of RFC 3986 under the field names of
  \<^verbatim>\<open>url.URL\<close>, an absent component being the empty string, and leaves
  percent-encoding and user information out.
\<close>

record URL =
  Scheme :: string
  Host :: string
  Path :: string
  RawQuery :: string
  Fragment :: string

definition IsAbs :: "URL \<Rightarrow> bool" where
  "IsAbs u = (Scheme u \<noteq> '''')"

definition cut :: "char \<Rightarrow> string \<Rightarrow> string \<times> string" where
  "cut c s = (takeWhile (\<lambda>x. x \<noteq> c) s, drop 1 (dropWhile (\<lambda>x. x \<noteq> c) s))"

definition isAlpha :: "char \<Rightarrow> bool" where
  "isAlpha c = (c \<in> set ''abcdefghijklmnopqrstuvwxyzABCDEFGHIJKLMNOPQRSTUVWXYZ'')"

definition isSchemeChar :: "char \<Rightarrow> bool" where
  "isSchemeChar c = (isAlpha c \<or> c \<in> set ''0123456789+-.'')"

text \<open>
  The scheme of a reference: a letter followed by letters, digits, \<^verbatim>\<open>+\<close>,
  \<^verbatim>\<open>-\<close> and \<^verbatim>\<open>.\<close>, up to a colon. A reference that starts with a colon has
  an empty scheme and is refused; one with no such prefix has no scheme.
\<close>

definition getScheme :: "string \<Rightarrow> (string \<times> string) option" where
  "getScheme rawURL =
     (case rawURL of
        [] \<Rightarrow> Some ('''', '''')
      | c # cs \<Rightarrow>
          if c = CHR '':'' then None
          else if \<not> isAlpha c then Some ('''', rawURL)
          else (case dropWhile isSchemeChar rawURL of
                  [] \<Rightarrow> Some ('''', rawURL)
                | d # rest \<Rightarrow>
                    if d = CHR '':'' then Some (takeWhile isSchemeChar rawURL, rest)
                    else Some ('''', rawURL)))"

text \<open>
  An authority that opens an IP literal with \<^verbatim>\<open>[\<close> must close it with
  \<^verbatim>\<open>]\<close>.
\<close>

definition validHost :: "string \<Rightarrow> bool" where
  "validHost h =
     (case h of
        [] \<Rightarrow> True
      | c # cs \<Rightarrow> if c = CHR ''['' then CHR '']'' \<in> set cs else True)"

definition Parse :: "string \<Rightarrow> URL option" where
  "Parse rawURL =
     (let (u, frag) = cut CHR ''#'' rawURL
      in case getScheme u of
           None \<Rightarrow> None
         | Some (scheme, rest) \<Rightarrow>
             (let (rest, query) = cut CHR ''?'' rest
              in if take 2 rest = ''//'' then
                   (let authority = takeWhile (\<lambda>x. x \<noteq> CHR ''/'') (drop 2 rest);
                        path = dropWhile (\<lambda>x. x \<noteq> CHR ''/'') (drop 2 rest)
                    in if validHost authority
                       then Some \<lparr>Scheme = scheme, Host = authority, Path = path,
                                  RawQuery = query, Fragment = frag\<rparr>
                       else None)
                 else Some \<lparr>Scheme = scheme, Host = '''', Path = rest,
                            RawQuery = query, Fragment = frag\<rparr>))"

text \<open>Paths as lists of segments between slashes.\<close>

fun splitOn :: "char \<Rightarrow> string \<Rightarrow> string list" where
  "splitOn c [] = [[]]"
| "splitOn c (x # xs) =
     (if x = c then [] # splitOn c xs
      else (case splitOn c xs of
              [] \<Rightarrow> [[x]]
            | w # ws \<Rightarrow> (x # w) # ws))"

fun joinWith :: "char \<Rightarrow> string list \<Rightarrow> string" where
  "joinWith c [] = []"
| "joinWith c [w] = w"
| "joinWith c (w # ws) = w @ c # joinWith c ws"

text \<open>
  RFC 3986, 5.2.4: a segment \<^verbatim>\<open>.\<close> is dropped, a segment \<^verbatim>\<open>..\<close> drops the
  segment before it, and a path that ends in one of them ends in a slash. The
  stack holds the segments kept so far, last first.
\<close>

fun dotSegments :: "string list \<Rightarrow> string list \<Rightarrow> string list" where
  "dotSegments [] stack = rev stack"
| "dotSegments (seg # segs) stack =
     (if seg = ''.'' then (if segs = [] then rev ('''' # stack) else dotSegments segs stack)
      else if seg = ''..'' then
        (if segs = [] then rev ('''' # tl stack) else dotSegments segs (tl stack))
      else dotSegments segs (seg # stack))"

definition removeDotSegments :: "string \<Rightarrow> string" where
  "removeDotSegments p =
     (case p of
        [] \<Rightarrow> []
      | c # cs \<Rightarrow>
          if c = CHR ''/'' then CHR ''/'' # joinWith CHR ''/'' (dotSegments (splitOn CHR ''/'' cs) [])
          else joinWith CHR ''/'' (dotSegments (splitOn CHR ''/'' p) []))"

text \<open>RFC 3986, 5.2.3: the base path up to its last slash, then the reference's path.\<close>

definition mergePaths :: "URL \<Rightarrow> string \<Rightarrow> string" where
  "mergePaths base p =
     (if Host base \<noteq> '''' \<and> Path base = '''' then CHR ''/'' # p
      else rev (dropWhile (\<lambda>x. x \<noteq> CHR ''/'') (rev (Path base))) @ p)"

text \<open>
  RFC 3986, 5.2.2: the reference \<open>ref\<close> resolved against the base \<open>u\<close>. An
  absolute reference is returned unchanged, as the spec words it.
\<close>

definition ResolveReference :: "URL \<Rightarrow> URL \<Rightarrow> URL" where
  "ResolveReference u ref =
     (if Scheme ref \<noteq> '''' then ref
      else if Host ref \<noteq> '''' then
        ref\<lparr>Scheme := Scheme u, Path := removeDotSegments (Path ref)\<rparr>
      else if Path ref = '''' then
        \<lparr>Scheme = Scheme u, Host = Host u, Path = Path u,
         RawQuery = (if RawQuery ref \<noteq> '''' then RawQuery ref else RawQuery u),
         Fragment = Fragment ref\<rparr>
      else
        \<lparr>Scheme = Scheme u, Host = Host u,
         Path = (if hd (Path ref) = CHR ''/'' then removeDotSegments (Path ref)
                 else removeDotSegments (mergePaths u (Path ref))),
         RawQuery = RawQuery ref, Fragment = Fragment ref\<rparr>)"

text \<open>RFC 3986, 5.3: the canonical string of a URL.\<close>

definition String :: "URL \<Rightarrow> string" where
  "String u =
     (if Scheme u \<noteq> '''' then Scheme u @ '':'' else '''')
     @ (if Host u \<noteq> '''' then ''//'' @ Host u else '''')
     @ Path u
     @ (if RawQuery u \<noteq> '''' then CHR ''?'' # RawQuery u else '''')
     @ (if Fragment u \<noteq> '''' then CHR ''#'' # Fragment u else '''')"

text \<open>
  The resolution on a nil base. An absolute reference is returned without
  reading the base; every other case of the resolution reads a component of the
  base, which on a nil pointer is a dereference of nil.
\<close>

definition ResolveReference_nil :: "URL \<Rightarrow> panic + URL" where
  "ResolveReference_nil ref =
     (if Scheme ref \<noteq> '''' then Inr ref else Inl NilPointerDereference)"

definition net_url :: "URL url_pkg" where
  "net_url = \<lparr>url_Parse = Parse, url_ResolveReference = ResolveReference,
               url_ResolveReference_nil = ResolveReference_nil, url_String = String\<rparr>"

section \<open>What each node contributes\<close>

text \<open>
  The value of the last attribute with a given key: what a forward pass that
  overwrites leaves behind. \<open>valOr\<close> reads it with Go's zero value, the empty
  string, for a key that never occurs.
\<close>

definition lastVal :: "string \<Rightarrow> Attribute list \<Rightarrow> string option" where
  "lastVal k as = map_option Val (find (\<lambda>a. Key a = k) (rev as))"

definition valOr :: "string option \<Rightarrow> string" where
  "valOr v = (case v of None \<Rightarrow> '''' | Some s \<Rightarrow> s)"

text \<open>
  Link rule of the specification: a node qualifies only if it is an element
  whose tag is the anchor; the candidate is the value of its first \<^verbatim>\<open>href\<close>
  attribute with a non-empty value; the candidate that normalises is a link.
\<close>

definition spec_anchorHref :: "Node option \<Rightarrow> string option" where
  "spec_anchorHref n =
     (case n of
        None \<Rightarrow> None
      | Some nd \<Rightarrow>
          if Type nd = ElementNode \<and> DataAtom nd = atom_A
          then map_option Val (find (\<lambda>a. Key a = ''href'' \<and> Val a \<noteq> '''') (Attr nd))
          else None)"

definition spec_link :: "'u url_pkg \<Rightarrow> 'u \<Rightarrow> Node option \<Rightarrow> 'u list" where
  "spec_link lib parent n =
     (case spec_anchorHref n of
        None \<Rightarrow> []
      | Some href \<Rightarrow> (case normaliseUrl lib parent href of None \<Rightarrow> [] | Some uri \<Rightarrow> [uri]))"

text \<open>
  Links-as-resources rule of the specification: \<^verbatim>\<open>rel\<close>, \<^verbatim>\<open>type\<close> and
  \<^verbatim>\<open>href\<close> are read last-wins; the node yields its normalised \<^verbatim>\<open>href\<close>
  only for \<^verbatim>\<open>rel\<close> "stylesheet" with \<^verbatim>\<open>type\<close> "text/css", or \<^verbatim>\<open>rel\<close>
  "shortcut icon".
\<close>

definition spec_linkAsset :: "'u url_pkg \<Rightarrow> 'u \<Rightarrow> Node option \<Rightarrow> 'u list" where
  "spec_linkAsset lib parent n =
     (case n of
        None \<Rightarrow> []
      | Some nd \<Rightarrow>
          (let rel = valOr (lastVal ''rel'' (Attr nd));
               linktype = valOr (lastVal ''type'' (Attr nd))
           in case lastVal ''href'' (Attr nd) of
                None \<Rightarrow> []
              | Some href \<Rightarrow>
                  (case normaliseUrl lib parent href of
                     None \<Rightarrow> []
                   | Some uri \<Rightarrow>
                       if (rel = ''stylesheet'' \<and> linktype = ''text/css'') \<or> rel = ''shortcut icon''
                       then [uri] else [])))"

text \<open>
  What an \<^verbatim>\<open>img\<close> or \<^verbatim>\<open>script\<close> node contributes: the first of its
  \<^verbatim>\<open>src\<close> attributes whose value is non-empty and normalises.
\<close>

definition firstGoodSrc :: "'u url_pkg \<Rightarrow> 'u \<Rightarrow> Node option \<Rightarrow> 'u list" where
  "firstGoodSrc lib parent n =
     (case n of
        None \<Rightarrow> []
      | Some nd \<Rightarrow>
          (case find (\<lambda>a. Key a = ''src'' \<and> Val a \<noteq> '''' \<and> normaliseUrl lib parent (Val a) \<noteq> None)
                  (Attr nd) of
             None \<Rightarrow> []
           | Some a \<Rightarrow> (case normaliseUrl lib parent (Val a) of None \<Rightarrow> [] | Some uri \<Rightarrow> [uri])))"

text \<open>
  What an anchor contributes in main.go: the raw value of its last \<^verbatim>\<open>href\<close>
  attribute, unless that value is empty.
\<close>

definition spec_rawLink :: "Node \<Rightarrow> string list" where
  "spec_rawLink nd =
     (if Type nd = ElementNode \<and> DataAtom nd = atom_A
      then (case lastVal ''href'' (Attr nd) of
              None \<Rightarrow> []
            | Some href \<Rightarrow> if href = '''' then [] else [href])
      else [])"

text \<open>
  A relative path: a raw string whose truncated form parses, in the modelled
  library, to a reference with neither scheme nor authority.
\<close>

definition isRelativePath :: "string \<Rightarrow> bool" where
  "isRelativePath raw =
     (case Parse (stripFragment raw) of
        None \<Rightarrow> False
      | Some r \<Rightarrow> Scheme r = '''' \<and> Host r = '''')"

text \<open>
  The elements of a list whose canonical string is neither in \<open>S\<close> nor carried
  by an earlier element: the loop of \<^verbatim>\<open>dedupeUrls\<close> with the key set of
  \<^verbatim>\<open>seen\<close> in place of the map.
\<close>

fun unseenFirsts :: "('u \<Rightarrow> string) \<Rightarrow> string set \<Rightarrow> 'u list \<Rightarrow> 'u list" where
  "unseenFirsts str S [] = []"
| "unseenFirsts str S (u # us) =
     (if str u \<in> S then unseenFirsts str S us else u # unseenFirsts str (insert (str u) S) us)"

text \<open>
  Deduplication by canonical string in first-seen order, by positions: the
  element at position \<open>i\<close> stays exactly when no element before it has its
  canonical string, and the elements that stay keep their order.
\<close>

definition firstOccurrences :: "('u \<Rightarrow> string) \<Rightarrow> 'u list \<Rightarrow> 'u list" where
  "firstOccurrences str xs =
     map (\<lambda>i. xs ! i) (filter (\<lambda>i. str (xs ! i) \<notin> str ` set (take i xs)) [0..<length xs])"

section \<open>Example documents\<close>

definition exampleUrl :: "string \<Rightarrow> URL" where
  "exampleUrl p = \<lparr>Scheme = ''http'', Host = ''example.com'', Path = p,
                    RawQuery = '''', Fragment = ''''\<rparr>"

definition exampleBase :: URL where
  "exampleBase = exampleUrl ''/dir/''"

definition attr :: "string \<Rightarrow> string \<Rightarrow> Attribute" where
  "attr k v = \<lparr>Namespace = '''', Key = k, Val = v\<rparr>"

text \<open>
  An element node. The passes over \<^verbatim>\<open>img\<close>, \<^verbatim>\<open>script\<close> and \<^verbatim>\<open>link\<close> nodes
  never read the atom; the examples give such nodes the atom 0.
\<close>

definition elementNode :: "Atom \<Rightarrow> string \<Rightarrow> Attribute list \<Rightarrow> Node" where
  "elementNode a tag as = \<lparr>Type = ElementNode, DataAtom = a, Data = tag, Attr = as\<rparr>"

definition element :: "Atom \<Rightarrow> string \<Rightarrow> Attribute list \<Rightarrow> Node option" where
  "element a tag as = Some (elementNode a tag as)"

definition textNode :: "string \<Rightarrow> Node option" where
  "textNode s = Some \<lparr>Type = TextNode, DataAtom = 0, Data = s, Attr = []\<rparr>"

text \<open>
  A document fetched from \<^verbatim>\<open>http://example.com/dir/\<close> with the given nodes
  under the four selectors the code queries, and a document whose embedded
  selection is nil.
\<close>

definition exampleDoc :: "Node option list \<Rightarrow> Node option list \<Rightarrow> Node option list
    \<Rightarrow> Node option list \<Rightarrow> URL Document" where
  "exampleDoc anchors imgs scripts links =
     \<lparr>Url = Some exampleBase,
      Find = (\<lambda>selector.
        if selector = ''a'' then Inr (Some \<lparr>Nodes = anchors\<rparr>)
        else if selector = ''img'' then Inr (Some \<lparr>Nodes = imgs\<rparr>)
        else if selector = ''script'' then Inr (Some \<lparr>Nodes = scripts\<rparr>)
        else if selector = ''link'' then Inr (Some \<lparr>Nodes = links\<rparr>)
        else Inr (Some \<lparr>Nodes = []\<rparr>))\<rparr>"

definition exampleDocNoSelection :: "URL Document" where
  "exampleDocNoSelection =
     \<lparr>Url = Some exampleBase, Find = (\<lambda>selector. Inl NilPointerDereference)\<rparr>"

definition exampleDocNilQuery :: "URL Document" where
  "exampleDocNilQuery = \<lparr>Url = Some exampleBase, Find = (\<lambda>selector. Inr None)\<rparr>"

section \<open>Facts about LastIndex and the truncation\<close>

lemma take1_drop_eq: "(take (Suc 0) (drop i s) = [c]) = (i < length s \<and> s ! i = c)"
proof (cases "i < length s")
  case True
  then have "drop i s = s ! i # drop (Suc i) s"
    by (simp add: Cons_nth_drop_Suc)
  with True show ?thesis by simp
next
  case False
  then show ?thesis by simp
qed

lemma instance_at: "(take (length [c]) (drop i s) = [c]) = (i < length s \<and> s ! i = c)"
  using take1_drop_eq[of i s c] by simp

lemma LastIndex_absent: "c \<notin> set s \<Longrightarrow> LastIndex s [c] = - 1"
proof -
  assume "c \<notin> set s"
  then have "\<And>i. i < length s \<Longrightarrow> s ! i \<noteq> c"
    by (metis nth_mem)
  then have "filter (\<lambda>i. take (length [c]) (drop i s) = [c]) (rev [0..<Suc (length s)]) = []"
    unfolding filter_empty_conv by (simp add: take1_drop_eq del: upt_Suc)
  then show ?thesis
    by (simp add: LastIndex_def del: upt_Suc)
qed

lemma LastIndex_last:
  assumes "c \<notin> set t"
  shows "LastIndex (s @ c # t) [c] = int (length s)"
proof -
  let ?P = "\<lambda>i. take (length [c]) (drop i (s @ c # t)) = [c]"
  let ?n = "length s"
  have parts: "[0..<Suc (length (s @ c # t))] = [0..<?n] @ [?n] @ [Suc ?n..<Suc (?n + Suc (length t))]"
  proof -
    have "[0..<Suc ?n + Suc (length t)] = [0..<Suc ?n] @ [Suc ?n..<Suc ?n + Suc (length t)]"
      by (rule upt_add_eq_append) simp
    then show ?thesis by simp
  qed
  have nt: "\<And>j. j < length t \<Longrightarrow> t ! j \<noteq> c"
    using assms by (metis nth_mem)
  have after: "filter ?P [Suc ?n..<Suc (?n + Suc (length t))] = []"
    unfolding filter_empty_conv
  proof
    fix i
    assume "i \<in> set [Suc ?n..<Suc (?n + Suc (length t))]"
    then have i: "Suc ?n \<le> i" "i < Suc (?n + Suc (length t))"
      by auto
    then have "(s @ c # t) ! i = t ! (i - Suc ?n)"
      by (simp add: nth_append nth_Cons')
    moreover have "i - Suc ?n < length t \<or> \<not> i < length (s @ c # t)"
      using i by auto
    ultimately show "\<not> ?P i"
      using nt[of "i - Suc ?n"] unfolding instance_at by auto
  qed
  have here: "?P ?n"
    unfolding instance_at by simp
  have "filter ?P (rev [0..<Suc (length (s @ c # t))]) = ?n # rev (filter ?P [0..<?n])"
    unfolding parts rev_append filter_append rev_filter[symmetric] after using here by simp
  then show ?thesis
    unfolding LastIndex_def by (simp del: upt_Suc)
qed

lemma stripFragment_absent: "CHR ''#'' \<notin> set s \<Longrightarrow> stripFragment s = s"
  by (simp add: stripFragment_def LastIndex_absent)

lemma stripFragment_last: "CHR ''#'' \<notin> set t \<Longrightarrow> stripFragment (s @ CHR ''#'' # t) = s"
  by (simp add: stripFragment_def LastIndex_last)

text \<open>
  Where the raw string has no \<^verbatim>\<open>#\<close> of its own, a fragment added to it has no
  effect on the result of \<^verbatim>\<open>normaliseUrl\<close>, whatever the URL library does.
\<close>

lemma normaliseUrl_added_fragment:
  "CHR ''#'' \<notin> set s \<Longrightarrow> CHR ''#'' \<notin> set frag \<Longrightarrow>
     normaliseUrl lib parent (s @ CHR ''#'' # frag) = normaliseUrl lib parent s"
  by (simp add: normaliseUrl_def stripFragment_last stripFragment_absent)

section \<open>The fragment (claim C1)\<close>

text \<open>
  Claim C1: the normalizer strips the fragment by truncating the raw string at
  the first \<^verbatim>\<open>#\<close>, so that a fragment appended to a URL string has no effect
  on the result. The code truncates at the last \<^verbatim>\<open>#\<close>
  (\<^verbatim>\<open>strings.LastIndex\<close>). At the raw string \<^verbatim>\<open>http://example.com/a#x#frag\<close>
  the parser therefore receives \<^verbatim>\<open>http://example.com/a#x\<close>, not
  \<^verbatim>\<open>http://example.com/a\<close>, and the resolved URL keeps the fragment \<^verbatim>\<open>x\<close>:
  the result for \<^verbatim>\<open>http://example.com/a#x\<close> with \<^verbatim>\<open>#frag\<close> appended differs
  from the result for \<^verbatim>\<open>http://example.com/a#x\<close> alone.
\<close>

theorem normaliseUrl_truncates_at_last_hash:
  "stripFragment ''http://example.com/a#x#frag'' = ''http://example.com/a#x''
   \<and> map_option String (normaliseUrl net_url exampleBase ''http://example.com/a#x#frag'')
       = Some ''http://example.com/a#x''
   \<and> map_option String (normaliseUrl net_url exampleBase ''http://example.com/a#x'')
       = Some ''http://example.com/a''"
  by code_simp

section \<open>Unparseable references (claim C7)\<close>

text \<open>
  Claim C7: for every raw string whose fragment-truncated form fails to parse as
  a URL reference, \<^verbatim>\<open>normaliseUrl\<close> returns nothing. In the model the result
  is an \<open>option\<close>: there is no other outcome, so nothing is raised or handed
  to the caller.
\<close>

theorem normaliseUrl_unparseable:
  "url_Parse lib (stripFragment raw) = None \<Longrightarrow> normaliseUrl lib parent raw = None"
  by (simp add: normaliseUrl_def)

theorem normaliseUrl_unparseable_witness:
  "url_Parse net_url (stripFragment ''http://['') = None
   \<and> normaliseUrl net_url exampleBase ''http://['' = None"
proof -
  have unparseable: "url_Parse net_url (stripFragment ''http://['') = None"
    by code_simp
  from normaliseUrl_unparseable[OF unparseable, of exampleBase] unparseable
  show ?thesis by simp
qed

section \<open>Deduplication of a list\<close>

lemma dedupeLoop_unseenFirsts:
  "dedupeLoop str xs seen ret = ret @ unseenFirsts str (dom seen) xs"
proof (induction xs arbitrary: seen ret)
  case Nil
  show ?case by simp
next
  case (Cons u us)
  show ?case
  proof (cases "seen (str u)")
    case None
    then have fresh: "str u \<notin> dom seen"
      by (simp add: domIff)
    have "dedupeLoop str (u # us) seen ret = dedupeLoop str us (seen(str u \<mapsto> True)) (ret @ [u])"
      using None by simp
    also have "\<dots> = (ret @ [u]) @ unseenFirsts str (dom (seen(str u \<mapsto> True))) us"
      by (rule Cons.IH)
    also have "\<dots> = ret @ unseenFirsts str (dom seen) (u # us)"
      using fresh by simp
    finally show ?thesis .
  next
    case (Some ok)
    then have "str u \<in> dom seen"
      by (simp add: domIff)
    with Some Cons show ?thesis by simp
  qed
qed

lemma unseenFirsts_keys: "str ` set (unseenFirsts str S xs) = str ` set xs - S"
  by (induction xs arbitrary: S) auto

lemma unseenFirsts_distinct: "distinct (map str (unseenFirsts str S xs))"
proof (induction xs arbitrary: S)
  case Nil
  show ?case by simp
next
  case (Cons u us)
  have "str u \<notin> str ` set (unseenFirsts str (insert (str u) S) us)"
    by (simp add: unseenFirsts_keys)
  with Cons show ?case by simp
qed

lemma unseenFirsts_positions:
  "unseenFirsts str S xs =
     map (\<lambda>i. xs ! i) (filter (\<lambda>i. str (xs ! i) \<notin> S \<union> str ` set (take i xs)) [0..<length xs])"
proof (induction xs arbitrary: S)
  case Nil
  show ?case by simp
next
  case (Cons u us)
  have idx: "[0..<length (u # us)] = 0 # map Suc [0..<length us]"
    by (simp add: upt_conv_Cons map_Suc_upt del: upt_Suc)
  have shifted: "map (\<lambda>i. (u # us) ! i)
        (filter (\<lambda>i. str ((u # us) ! i) \<notin> S \<union> str ` set (take i (u # us))) (map Suc [0..<length us]))
      = map (\<lambda>i. us ! i)
          (filter (\<lambda>i. str (us ! i) \<notin> insert (str u) S \<union> str ` set (take i us)) [0..<length us])"
    by (simp add: filter_map comp_def conj_ac)
  show ?case
  proof (cases "str u \<in> S")
    case True
    then have "insert (str u) S = S" by auto
    with True Cons[of S] show ?thesis
      unfolding idx using shifted by simp
  next
    case False
    with Cons[of "insert (str u) S"] show ?thesis
      unfolding idx using shifted by simp
  qed
qed

lemma dedupeUrls_positions:
  "dedupeUrls lib xs =
     map (\<lambda>i. xs ! i)
       (filter (\<lambda>i. url_String lib (xs ! i) \<notin> url_String lib ` set (take i xs)) [0..<length xs])"
  by (simp add: dedupeUrls_def dedupeLoop_unseenFirsts unseenFirsts_positions)

lemma dedupeUrls_distinct: "distinct (map (url_String lib) (dedupeUrls lib xs))"
  by (simp add: dedupeUrls_def dedupeLoop_unseenFirsts unseenFirsts_distinct)

lemma dedupeUrls_keys: "url_String lib ` set (dedupeUrls lib xs) = url_String lib ` set xs"
  by (simp add: dedupeUrls_def dedupeLoop_unseenFirsts unseenFirsts_keys)

lemma count_list_distinct: "distinct ys \<Longrightarrow> y \<in> set ys \<Longrightarrow> count_list ys y = 1"
  by (induction ys) auto

lemma dedupeUrls_once:
  "u \<in> set xs \<Longrightarrow> count_list (map (url_String lib) (dedupeUrls lib xs)) (url_String lib u) = 1"
proof -
  assume "u \<in> set xs"
  then have "url_String lib u \<in> set (map (url_String lib) (dedupeUrls lib xs))"
    using dedupeUrls_keys[of lib xs] by auto
  then show ?thesis
    using dedupeUrls_distinct[of lib xs] by (simp add: count_list_distinct)
qed

lemma dedupeUrls_subseq: "subseq (dedupeUrls lib xs) xs"
proof -
  have "subseq (unseenFirsts str S ys) ys" for str :: "'a \<Rightarrow> string" and S ys
    by (induction ys arbitrary: S) auto
  then show ?thesis
    by (simp add: dedupeUrls_def dedupeLoop_unseenFirsts)
qed

section \<open>Attribute lookups\<close>

lemma find_append_cases:
  "find P (xs @ ys) = (case find P xs of None \<Rightarrow> find P ys | Some x \<Rightarrow> Some x)"
  by (induction xs) auto

lemma lastVal_Nil: "lastVal k [] = None"
  by (simp add: lastVal_def)

lemma lastVal_Cons:
  "lastVal k (a # as) =
     (case lastVal k as of
        Some v \<Rightarrow> Some v
      | None \<Rightarrow> if Key a = k then Some (Val a) else None)"
  by (simp add: lastVal_def find_append_cases split: option.splits)

lemma hrefLoop_find:
  "hrefLoop as =
     (case find (\<lambda>a. Key a = ''href'' \<and> Val a \<noteq> '''') as of
        None \<Rightarrow> Inl InvalidNodeAttributeMissing
      | Some a \<Rightarrow> Inr (Val a))"
  by (induction as) auto

section \<open>The loops at a parent that is set\<close>

text \<open>
  With \<^verbatim>\<open>doc.Url\<close> set, no call of \<^verbatim>\<open>normaliseUrl\<close> panics, and the loops at
  the pointer are the loops at the URL it points to.
\<close>

lemma normaliseUrl_ptr_set: "normaliseUrl_ptr lib (Some p) s = Inr (normaliseUrl lib p s)"
  by (simp add: normaliseUrl_ptr_def)

lemma linksLoop_ptr_set: "linksLoop_ptr lib (Some p) ns urls = Inr (linksLoop lib p ns urls)"
  by (induction ns arbitrary: urls)
    (auto simp: normaliseUrl_ptr_set split: sum.splits option.splits)

lemma srcLoop_ptr_set: "srcLoop_ptr lib (Some p) as assets = Inr (srcLoop lib p as assets)"
  by (induction as) (auto simp: normaliseUrl_ptr_set split: option.splits)

lemma srcNodes_ptr_set: "srcNodes_ptr lib (Some p) ns assets = Inr (srcNodes lib p ns assets)"
  by (induction ns arbitrary: assets) (auto simp: srcLoop_ptr_set split: option.splits)

lemma linkFields_ptr_set:
  "linkFields_ptr lib (Some p) as st = Inr (linkFields lib p as st)"
proof (induction as arbitrary: st)
  case Nil
  show ?case by simp
next
  case (Cons a as)
  obtain rel linktype uri where st: "st = (rel, linktype, uri)"
    by (cases st)
  show ?case
    unfolding st by (simp add: Cons.IH normaliseUrl_ptr_set)
qed

lemma linkNode_ptr_set: "linkNode_ptr lib (Some p) nd assets = Inr (linkNode lib p nd assets)"
  by (simp add: linkNode_ptr_def linkNode_def linkFields_ptr_set split: prod.splits option.splits)

lemma linkNodes_ptr_set: "linkNodes_ptr lib (Some p) ns assets = Inr (linkNodes lib p ns assets)"
  by (induction ns arbitrary: assets) (auto simp: linkNode_ptr_set split: option.splits)

lemma extractLinks_set:
  "Find d ''a'' = Inr (Some sel) \<Longrightarrow> Url d = Some p \<Longrightarrow>
     extractLinks lib (Some d) = Inr (dedupeUrls lib (linksLoop lib p (Nodes sel) []), None)"
  by (simp add: extractLinks_def linksLoop_ptr_set)

lemma extractAssets_set:
  "Find d ''img'' = Inr (Some imgs) \<Longrightarrow> Find d ''script'' = Inr (Some scripts) \<Longrightarrow>
   Find d ''link'' = Inr (Some links) \<Longrightarrow> Url d = Some p \<Longrightarrow>
     extractAssets lib (Some d)
       = Inr (dedupeUrls lib
               (linkNodes lib p (Nodes links)
                 (srcNodes lib p (Nodes scripts) (srcNodes lib p (Nodes imgs) []))), None)"
  by (simp add: extractAssets_def srcNodes_ptr_set linkNodes_ptr_set)

text \<open>
  Otherwise the extractors panic: on a document whose embedded selection is
  nil, and on a document whose \<^verbatim>\<open>Url\<close> is nil as soon as a relative reference
  is resolved (here in the modelled library).
\<close>

lemma extract_panics_without_selection_or_url:
  "extractLinks net_url (Some exampleDocNoSelection) = Inl NilPointerDereference
   \<and> extractAssets net_url (Some exampleDocNoSelection) = Inl NilPointerDereference
   \<and> extractLinks net_url
        (Some ((exampleDoc [element atom_A ''a'' [attr ''href'' ''b'']] [] [] [])\<lparr>Url := None\<rparr>))
      = Inl NilPointerDereference
   \<and> extractAssets net_url
        (Some ((exampleDoc [] [element 0 ''img'' [attr ''src'' ''b.png'']] [] [])\<lparr>Url := None\<rparr>))
      = Inl NilPointerDereference
   \<and> extractAssets net_url (Some exampleDocNilQuery) = Inl NilPointerDereference"
  by code_simp

section \<open>Link extraction (claim C4)\<close>

lemma extractValidHref_spec: "(extractValidHref n = Inr v) = (spec_anchorHref n = Some v)"
  by (auto simp: extractValidHref_def spec_anchorHref_def hrefLoop_find split: option.splits)

lemma spec_anchorHref_nonempty: "spec_anchorHref n = Some v \<Longrightarrow> v \<noteq> ''''"
  by (auto simp: spec_anchorHref_def find_Some_iff split: option.splits if_splits)

lemma linksLoop_step:
  "linksLoop lib parent (n # ns) urls = linksLoop lib parent ns (urls @ spec_link lib parent n)"
proof (cases "extractValidHref n")
  case (Inl e)
  then have "spec_anchorHref n = None"
    using extractValidHref_spec[of n] by (cases "spec_anchorHref n") auto
  with Inl show ?thesis
    by (simp add: spec_link_def)
next
  case (Inr href)
  then have h: "spec_anchorHref n = Some href"
    by (simp add: extractValidHref_spec)
  then have "href \<noteq> ''''"
    by (rule spec_anchorHref_nonempty)
  with Inr h show ?thesis
    by (simp add: spec_link_def split: option.splits)
qed

lemma linksLoop_concat:
  "linksLoop lib parent ns urls = urls @ concat (map (spec_link lib parent) ns)"
proof (induction ns arbitrary: urls)
  case Nil
  show ?case by simp
next
  case (Cons n ns)
  show ?case
    unfolding linksLoop_step Cons.IH by simp
qed

text \<open>
  Claim C4: in link extraction a queried node contributes a candidate only if it
  is an element whose tag is the anchor, and the candidate is the value of its
  first \<^verbatim>\<open>href\<close> attribute with a non-empty value; any other node is skipped
  and the rest of the extraction goes on unchanged. \<^verbatim>\<open>extractValidHref\<close>
  returns a value exactly when the rule of the specification gives that
  candidate, the links collected are the contributions of the nodes, each node
  on its own and in document order, and \<^verbatim>\<open>extractLinks\<close>, on a document whose
  anchor query gives a selection and whose \<^verbatim>\<open>Url\<close> is set, returns them
  deduplicated.
\<close>

theorem extractLinks_follows_link_rule:
  "(extractValidHref n = Inr v) = (spec_anchorHref n = Some v)
   \<and> linksLoop lib parent ns urls = urls @ concat (map (spec_link lib parent) ns)
   \<and> (\<forall>sel p. Find d ''a'' = Inr (Some sel) \<and> Url d = Some p \<longrightarrow>
         extractLinks lib (Some d)
           = Inr (dedupeUrls lib (concat (map (spec_link lib p) (Nodes sel))), None))"
  by (simp add: extractValidHref_spec linksLoop_concat extractLinks_set)

text \<open>
  Seven nodes: an anchor with a usable \<^verbatim>\<open>href\<close>, a text node, an anchor
  whose only \<^verbatim>\<open>href\<close> is empty, an anchor with no \<^verbatim>\<open>href\<close>, a nil node, an
  element that is no anchor, and an anchor whose first \<^verbatim>\<open>href\<close> is empty and
  whose second is not. The skipped nodes leave the links of the others in place.
\<close>

theorem extractLinks_follows_link_rule_witness:
  "extractValidHref (element atom_A ''a'' [attr ''id'' ''x'', attr ''href'' '''', attr ''href'' ''c'', attr ''href'' ''d''])
     = Inr ''c''
   \<and> spec_anchorHref (element atom_A ''a'' [attr ''id'' ''x'', attr ''href'' '''', attr ''href'' ''c'', attr ''href'' ''d''])
     = Some ''c''
   \<and> linksLoop net_url exampleBase
        [element atom_A ''a'' [attr ''href'' ''/a''],
         textNode ''a'',
         element atom_A ''a'' [attr ''href'' ''''],
         element atom_A ''a'' [attr ''name'' ''top''],
         None,
         element 0 ''div'' [attr ''href'' ''/no''],
         element atom_A ''a'' [attr ''href'' '''', attr ''href'' ''c'']] []
     = [exampleUrl ''/a'', exampleUrl ''/dir/c'']
   \<and> extractLinks net_url
        (Some (exampleDoc
          [element atom_A ''a'' [attr ''href'' ''/a''],
           textNode ''a'',
           element atom_A ''a'' [attr ''href'' ''''],
           element atom_A ''a'' [attr ''name'' ''top''],
           None,
           element 0 ''div'' [attr ''href'' ''/no''],
           element atom_A ''a'' [attr ''href'' '''', attr ''href'' ''c'']] [] [] []))
     = Inr ([exampleUrl ''/a'', exampleUrl ''/dir/c''], None)"
proof -
  let ?n = "element atom_A ''a'' [attr ''id'' ''x'', attr ''href'' '''', attr ''href'' ''c'', attr ''href'' ''d'']"
  let ?ns = "[element atom_A ''a'' [attr ''href'' ''/a''],
         textNode ''a'',
         element atom_A ''a'' [attr ''href'' ''''],
         element atom_A ''a'' [attr ''name'' ''top''],
         None,
         element 0 ''div'' [attr ''href'' ''/no''],
         element atom_A ''a'' [attr ''href'' '''', attr ''href'' ''c'']]"
  let ?d = "exampleDoc ?ns [] [] []"
  note fact = extractLinks_follows_link_rule[of ?n "''c''" net_url exampleBase ?ns "[]" ?d]
  have rule: "spec_anchorHref ?n = Some ''c''"
    by code_simp
  have contributions: "[] @ concat (map (spec_link net_url exampleBase) ?ns)
                        = [exampleUrl ''/a'', exampleUrl ''/dir/c'']"
    by code_simp
  have query: "Find ?d ''a'' = Inr (Some \<lparr>Nodes = ?ns\<rparr>) \<and> Url ?d = Some exampleBase"
    by (simp add: exampleDoc_def)
  have deduped: "dedupeUrls net_url (concat (map (spec_link net_url exampleBase) (Nodes \<lparr>Nodes = ?ns\<rparr>)))
                   = [exampleUrl ''/a'', exampleUrl ''/dir/c'']"
    by code_simp
  have "extractValidHref ?n = Inr ''c''"
    using fact rule by (simp only: simp_thms)
  moreover have "linksLoop net_url exampleBase ?ns [] = [exampleUrl ''/a'', exampleUrl ''/dir/c'']"
    using fact contributions by (simp only:)
  moreover have "extractLinks net_url (Some ?d)
       = Inr (dedupeUrls net_url (concat (map (spec_link net_url exampleBase) (Nodes \<lparr>Nodes = ?ns\<rparr>))), None)"
    using fact query by blast
  then have "extractLinks net_url (Some ?d) = Inr ([exampleUrl ''/a'', exampleUrl ''/dir/c''], None)"
    using deduped by (simp only:)
  ultimately show ?thesis
    using rule by (simp only: simp_thms)
qed

section \<open>Stylesheets and icons (claim C5)\<close>

lemma linkFields_lastVal:
  "linkFields lib parent as (rel, linktype, uri) =
     (case lastVal ''rel'' as of None \<Rightarrow> rel | Some v \<Rightarrow> v,
      case lastVal ''type'' as of None \<Rightarrow> linktype | Some v \<Rightarrow> v,
      case lastVal ''href'' as of None \<Rightarrow> uri | Some h \<Rightarrow> normaliseUrl lib parent h)"
proof (induction as arbitrary: rel linktype uri)
  case Nil
  show ?case by (simp add: lastVal_Nil)
next
  case (Cons a as)
  show ?case
    by (simp add: Cons.IH lastVal_Cons split: option.splits)
qed

lemma linkNode_spec:
  "linkNode lib parent nd assets = assets @ spec_linkAsset lib parent (Some nd)"
  by (simp add: linkNode_def linkFields_lastVal spec_linkAsset_def valOr_def split: option.splits)

lemma linkNodes_concat:
  "linkNodes lib parent ns assets = assets @ concat (map (spec_linkAsset lib parent) ns)"
proof (induction ns arbitrary: assets)
  case Nil
  show ?case by simp
next
  case (Cons n ns)
  show ?case
  proof (cases n)
    case None
    then show ?thesis
      by (simp add: Cons.IH spec_linkAsset_def)
  next
    case (Some nd)
    then show ?thesis
      by (simp add: Cons.IH linkNode_spec)
  qed
qed




section \<open>Images and scripts (claim C3)\<close>

lemma srcLoop_find:
  "srcLoop lib parent as assets =
     assets @ (case find (\<lambda>a. Key a = ''src'' \<and> Val a \<noteq> '''' \<and> normaliseUrl lib parent (Val a) \<noteq> None) as of
                 None \<Rightarrow> []
               | Some a \<Rightarrow> (case normaliseUrl lib parent (Val a) of None \<Rightarrow> [] | Some uri \<Rightarrow> [uri]))"
  by (induction as) (auto split: option.splits)

lemma srcNodes_concat:
  "srcNodes lib parent ns assets = assets @ concat (map (firstGoodSrc lib parent) ns)"
proof (induction ns arbitrary: assets)
  case Nil
  show ?case by simp
next
  case (Cons n ns)
  show ?case
  proof (cases n)
    case None
    then show ?thesis
      by (simp add: Cons.IH firstGoodSrc_def)
  next
    case (Some nd)
    then show ?thesis
      by (simp add: Cons.IH srcLoop_find firstGoodSrc_def)
  qed
qed







section \<open>The extractor of main.go (claim C10)\<close>

lemma lastHref_lastVal:
  "lastHref as href = (case lastVal ''href'' as of None \<Rightarrow> href | Some v \<Rightarrow> v)"
  by (induction as arbitrary: href) (auto simp: lastVal_Nil lastVal_Cons split: option.splits)

lemma mainLinksLoop_concat:
  "mainLinksLoop (map Some nds) urls = Inr (urls @ concat (map spec_rawLink nds))"
proof (induction nds arbitrary: urls)
  case Nil
  show ?case by simp
next
  case (Cons nd nds)
  show ?case
    by (simp add: Cons.IH spec_rawLink_def lastHref_lastVal Let_def split: option.splits)
qed

lemma mainLinksLoop_nil_node:
  "None \<in> set ns \<Longrightarrow> mainLinksLoop ns urls = Inl NilPointerDereference"
  by (induction ns arbitrary: urls) (auto simp: Let_def split: option.splits)

text \<open>
  Claim C10: the standalone \<^verbatim>\<open>extractLinks\<close> of main.go, which \<^verbatim>\<open>fetch\<close>
  calls, takes the last \<^verbatim>\<open>href\<close> attribute of each anchor (a later value,
  an empty one included, overwrites an earlier one, and an empty last value
  skips the node) and returns the raw attribute strings, neither normalised nor
  deduplicated. For the nodes of the anchor query (none of them nil) the result
  is, node by node and in order, the raw last \<^verbatim>\<open>href\<close> of each anchor element
  when it is not empty; \<^verbatim>\<open>fetch\<close> hands these strings on unchanged.
\<close>

theorem extractLinks_main_raw_last_href:
  "lastHref as '''' = valOr (lastVal ''href'' as)
   \<and> (\<forall>sel. Find d ''a'' = Inr (Some sel) \<and> Nodes sel = map Some nds \<longrightarrow>
         extractLinks_main (Some d) = Inr (concat (map spec_rawLink nds), None)
         \<and> (\<forall>url. NewDocument url = Inr d \<longrightarrow>
               fetch NewDocument url = Inr ('''', concat (map spec_rawLink nds), None)))"
  by (simp add: lastHref_lastVal valOr_def extractLinks_main_def mainLinksLoop_concat fetch_def)

text \<open>
  Four anchors under the base \<^verbatim>\<open>http://example.com/dir/\<close>: \<^verbatim>\<open>/a#x\<close> twice,
  one whose non-empty \<^verbatim>\<open>href\<close> is followed by an empty one, and one whose
  second \<^verbatim>\<open>href\<close> replaces the first. The result keeps the fragment, the
  relative form and the duplicate, and skips the third anchor.
\<close>

theorem extractLinks_main_raw_last_href_witness:
  "lastHref [attr ''href'' ''x'', attr ''href'' ''''] '''' = ''''
   \<and> extractLinks_main
        (Some (exampleDoc [element atom_A ''a'' [attr ''href'' ''/a#x''],
                           element atom_A ''a'' [attr ''href'' ''/a#x''],
                           element atom_A ''a'' [attr ''href'' ''x'', attr ''href'' ''''],
                           element atom_A ''a'' [attr ''href'' ''first'', attr ''href'' ''second'']] [] [] []))
      = Inr ([''/a#x'', ''/a#x'', ''second''], None)
   \<and> fetch (\<lambda>url. Inr (exampleDoc [element atom_A ''a'' [attr ''href'' ''/a#x''],
                           element atom_A ''a'' [attr ''href'' ''/a#x''],
                           element atom_A ''a'' [attr ''href'' ''x'', attr ''href'' ''''],
                           element atom_A ''a'' [attr ''href'' ''first'', attr ''href'' ''second'']] [] [] [])
                  :: unit + URL Document)
        ''http://example.com/dir/''
      = Inr ('''', [''/a#x'', ''/a#x'', ''second''], None)"
proof -
  let ?nds = "[elementNode atom_A ''a'' [attr ''href'' ''/a#x''],
               elementNode atom_A ''a'' [attr ''href'' ''/a#x''],
               elementNode atom_A ''a'' [attr ''href'' ''x'', attr ''href'' ''''],
               elementNode atom_A ''a'' [attr ''href'' ''first'', attr ''href'' ''second'']]"
  let ?d = "exampleDoc (map Some ?nds) [] [] []"
  let ?new = "\<lambda>url. Inr ?d :: unit + URL Document"
  note fact = extractLinks_main_raw_last_href[of "[attr ''href'' ''x'', attr ''href'' '''']" ?d ?nds ?new]
  have last: "valOr (lastVal ''href'' [attr ''href'' ''x'', attr ''href'' '''']) = ''''"
    by code_simp
  have query: "Find ?d ''a'' = Inr (Some \<lparr>Nodes = map Some ?nds\<rparr>)
                 \<and> Nodes \<lparr>Nodes = map Some ?nds\<rparr> = map Some ?nds"
    by (simp add: exampleDoc_def)
  have raw: "concat (map spec_rawLink ?nds) = [''/a#x'', ''/a#x'', ''second'']"
    by code_simp
  have "extractLinks_main (Some ?d) = Inr (concat (map spec_rawLink ?nds), None)"
    using fact query by blast
  then have links: "extractLinks_main (Some ?d) = Inr ([''/a#x'', ''/a#x'', ''second''], None)"
    using raw by (simp only:)
  have "fetch ?new ''http://example.com/dir/'' = Inr ('''', concat (map spec_rawLink ?nds), None)"
    using fact query by blast
  then have fetched: "fetch ?new ''http://example.com/dir/'' = Inr ('''', [''/a#x'', ''/a#x'', ''second''], None)"
    using raw by (simp only:)
  have "lastHref [attr ''href'' ''x'', attr ''href'' ''''] '''' = ''''"
    using fact last by (simp only:)
  with links fetched show ?thesis
    by (simp only: element_def list.map simp_thms)
qed

section \<open>Deduplication of the links and of the assets (claim C6)\<close>

lemma dedupeUrls_firstOccurrences: "dedupeUrls lib xs = firstOccurrences (url_String lib) xs"
  by (simp add: firstOccurrences_def dedupeUrls_positions)

lemma extractLinks_firstOccurrences:
  assumes "Find d ''a'' = Inr (Some anchors)" and "Url d = Some parent"
  shows "extractLinks lib (Some d)
           = Inr (firstOccurrences (url_String lib)
                    (concat (map (spec_link lib parent) (Nodes anchors))), None)"
  using assms by (simp add: extractLinks_set linksLoop_concat dedupeUrls_firstOccurrences)

lemma extractAssets_firstOccurrences:
  assumes "Find d ''img'' = Inr (Some imgs)" and "Find d ''script'' = Inr (Some scripts)"
    and "Find d ''link'' = Inr (Some links)" and "Url d = Some parent"
  shows "extractAssets lib (Some d)
           = Inr (firstOccurrences (url_String lib)
                    (concat (map (firstGoodSrc lib parent) (Nodes imgs))
                     @ concat (map (firstGoodSrc lib parent) (Nodes scripts))
                     @ concat (map (spec_linkAsset lib parent) (Nodes links))), None)"
  using assms
  by (simp add: extractAssets_set srcNodes_concat linkNodes_concat dedupeUrls_firstOccurrences)

lemma extractLinks_distinct:
  "extractLinks lib doc = Inr (urls, err) \<Longrightarrow> distinct (map (url_String lib) urls)"
  by (auto simp: extractLinks_def dedupeUrls_distinct split: option.splits sum.splits)

lemma extractAssets_distinct:
  "extractAssets lib doc = Inr (assets, err) \<Longrightarrow> distinct (map (url_String lib) assets)"
  by (auto simp: extractAssets_def dedupeUrls_distinct split: option.splits sum.splits)

text \<open>
  Claim C6: after normalization the links and the assets are each deduplicated
  by canonical string, in first-seen order: a normalized URL that occurs more
  than once within one category is in that category's output exactly once, at
  the position of its first occurrence, and no canonical string occurs twice.
  \<^verbatim>\<open>dedupeUrls\<close> keeps the element at position \<open>i\<close> exactly when no earlier
  element has its canonical string, in the order of the input, so every
  canonical string of the input occurs exactly once in the output. The links a
  document yields are the first occurrences in the sequence of normalized links
  its anchors contribute, in document order; the assets are the first
  occurrences in the sequence its images, then its scripts, then its link nodes
  contribute (for a document whose queries give selections and whose \<^verbatim>\<open>Url\<close>
  is set). Whatever the extractors return has no canonical string twice.
\<close>

theorem dedupeUrls_first_seen:
  "dedupeUrls lib xs = firstOccurrences (url_String lib) xs
   \<and> firstOccurrences (url_String lib) xs =
       map (\<lambda>i. xs ! i)
         (filter (\<lambda>i. url_String lib (xs ! i) \<notin> url_String lib ` set (take i xs)) [0..<length xs])
   \<and> subseq (dedupeUrls lib xs) xs
   \<and> distinct (map (url_String lib) (dedupeUrls lib xs))
   \<and> (\<forall>u \<in> set xs. count_list (map (url_String lib) (dedupeUrls lib xs)) (url_String lib u) = 1)
   \<and> (\<forall>anchors parent.
         Find d ''a'' = Inr (Some anchors) \<and> Url d = Some parent \<longrightarrow>
           extractLinks lib (Some d)
             = Inr (firstOccurrences (url_String lib)
                      (concat (map (spec_link lib parent) (Nodes anchors))), None))
   \<and> (\<forall>imgs scripts links parent.
         Find d ''img'' = Inr (Some imgs) \<and> Find d ''script'' = Inr (Some scripts)
         \<and> Find d ''link'' = Inr (Some links) \<and> Url d = Some parent \<longrightarrow>
           extractAssets lib (Some d)
             = Inr (firstOccurrences (url_String lib)
                      (concat (map (firstGoodSrc lib parent) (Nodes imgs))
                       @ concat (map (firstGoodSrc lib parent) (Nodes scripts))
                       @ concat (map (spec_linkAsset lib parent) (Nodes links))), None))
   \<and> (\<forall>urls err. extractLinks lib doc = Inr (urls, err) \<longrightarrow> distinct (map (url_String lib) urls))
   \<and> (\<forall>assets err. extractAssets lib doc = Inr (assets, err) \<longrightarrow> distinct (map (url_String lib) assets))"
proof (intro conjI allI impI)
  show "dedupeUrls lib xs = firstOccurrences (url_String lib) xs"
    by (rule dedupeUrls_firstOccurrences)
  show "firstOccurrences (url_String lib) xs =
       map (\<lambda>i. xs ! i)
         (filter (\<lambda>i. url_String lib (xs ! i) \<notin> url_String lib ` set (take i xs)) [0..<length xs])"
    by (simp add: firstOccurrences_def)
  show "subseq (dedupeUrls lib xs) xs"
    by (rule dedupeUrls_subseq)
  show "distinct (map (url_String lib) (dedupeUrls lib xs))"
    by (rule dedupeUrls_distinct)
  show "\<forall>u \<in> set xs. count_list (map (url_String lib) (dedupeUrls lib xs)) (url_String lib u) = 1"
    by (simp add: dedupeUrls_once)
next
  fix anchors parent
  assume "Find d ''a'' = Inr (Some anchors) \<and> Url d = Some parent"
  then show "extractLinks lib (Some d)
             = Inr (firstOccurrences (url_String lib)
                      (concat (map (spec_link lib parent) (Nodes anchors))), None)"
    using extractLinks_firstOccurrences[of d anchors parent lib] by blast
next
  fix imgs scripts links parent
  assume "Find d ''img'' = Inr (Some imgs) \<and> Find d ''script'' = Inr (Some scripts)
         \<and> Find d ''link'' = Inr (Some links) \<and> Url d = Some parent"
  then show "extractAssets lib (Some d)
             = Inr (firstOccurrences (url_String lib)
                      (concat (map (firstGoodSrc lib parent) (Nodes imgs))
                       @ concat (map (firstGoodSrc lib parent) (Nodes scripts))
                       @ concat (map (spec_linkAsset lib parent) (Nodes links))), None)"
    using extractAssets_firstOccurrences[of d imgs scripts links parent lib] by blast
next
  fix urls err
  assume "extractLinks lib doc = Inr (urls, err)"
  then show "distinct (map (url_String lib) urls)"
    by (rule extractLinks_distinct)
next
  fix assets err
  assume "extractAssets lib doc = Inr (assets, err)"
  then show "distinct (map (url_String lib) assets)"
    by (rule extractAssets_distinct)
qed

text \<open>
  The scenario of the specification: anchors \<^verbatim>\<open>/a\<close>, \<^verbatim>\<open>b\<close> and \<^verbatim>\<open>/a#x\<close>
  under the base \<^verbatim>\<open>http://example.com/dir/\<close>. The third link repeats the
  first and is dropped. A second page names \<^verbatim>\<open>x.js\<close> as an image source and
  as a script, and \<^verbatim>\<open>y.js\<close> as a script and as a stylesheet: each asset is
  kept where it is first seen, in the order images, scripts, link nodes.
\<close>

theorem dedupeUrls_first_seen_witness:
  "dedupeUrls net_url [exampleUrl ''/a'', exampleUrl ''/dir/b'', exampleUrl ''/a'']
     = [exampleUrl ''/a'', exampleUrl ''/dir/b'']
   \<and> count_list (map (url_String net_url)
        (dedupeUrls net_url [exampleUrl ''/a'', exampleUrl ''/dir/b'', exampleUrl ''/a'']))
        (url_String net_url (exampleUrl ''/a'')) = 1
   \<and> concat (map (spec_link net_url exampleBase)
        [element atom_A ''a'' [attr ''href'' ''/a''],
         element atom_A ''a'' [attr ''href'' ''b''],
         element atom_A ''a'' [attr ''href'' ''/a#x'']])
      = [exampleUrl ''/a'', exampleUrl ''/dir/b'', exampleUrl ''/a'']
   \<and> extractLinks net_url
        (Some (exampleDoc [element atom_A ''a'' [attr ''href'' ''/a''],
                           element atom_A ''a'' [attr ''href'' ''b''],
                           element atom_A ''a'' [attr ''href'' ''/a#x'']] [] []
                          [element 0 ''link'' [attr ''rel'' ''stylesheet'', attr ''type'' ''text/css'',
                                               attr ''href'' ''s.css'']]))
      = Inr ([exampleUrl ''/a'', exampleUrl ''/dir/b''], None)
   \<and> extractAssets net_url
        (Some (exampleDoc [] [element 0 ''img'' [attr ''src'' ''x.js'']]
                          [element 0 ''script'' [attr ''src'' ''x.js''],
                           element 0 ''script'' [attr ''src'' ''y.js'']]
                          [element 0 ''link'' [attr ''rel'' ''stylesheet'', attr ''type'' ''text/css'',
                                               attr ''href'' ''y.js''],
                           element 0 ''link'' [attr ''rel'' ''shortcut icon'', attr ''href'' ''i.ico'']]))
      = Inr ([exampleUrl ''/dir/x.js'', exampleUrl ''/dir/y.js'', exampleUrl ''/dir/i.ico''], None)
   \<and> distinct (map (url_String net_url) [exampleUrl ''/a'', exampleUrl ''/dir/b''])"
proof -
  let ?xs = "[exampleUrl ''/a'', exampleUrl ''/dir/b'', exampleUrl ''/a'']"
  let ?anchors = "[element atom_A ''a'' [attr ''href'' ''/a''],
                   element atom_A ''a'' [attr ''href'' ''b''],
                   element atom_A ''a'' [attr ''href'' ''/a#x'']]"
  let ?sheet = "[element 0 ''link'' [attr ''rel'' ''stylesheet'', attr ''type'' ''text/css'',
                                     attr ''href'' ''s.css'']]"
  let ?imgs = "[element 0 ''img'' [attr ''src'' ''x.js'']]"
  let ?scripts = "[element 0 ''script'' [attr ''src'' ''x.js''],
                   element 0 ''script'' [attr ''src'' ''y.js'']]"
  let ?links = "[element 0 ''link'' [attr ''rel'' ''stylesheet'', attr ''type'' ''text/css'',
                                     attr ''href'' ''y.js''],
                 element 0 ''link'' [attr ''rel'' ''shortcut icon'', attr ''href'' ''i.ico'']]"
  let ?d = "exampleDoc ?anchors [] [] ?sheet"
  let ?e = "exampleDoc [] ?imgs ?scripts ?links"
  note list = dedupeUrls_first_seen[of net_url ?xs ?d "Some ?d"]
  note assets = dedupeUrls_first_seen[of net_url ?xs ?e "Some ?e"]
  have kept: "map (\<lambda>i. ?xs ! i)
       (filter (\<lambda>i. url_String net_url (?xs ! i) \<notin> url_String net_url ` set (take i ?xs)) [0..<length ?xs])
     = [exampleUrl ''/a'', exampleUrl ''/dir/b'']"
    by code_simp
  have first: "dedupeUrls net_url ?xs = [exampleUrl ''/a'', exampleUrl ''/dir/b'']"
    using list kept by (simp only:)
  have once: "count_list (map (url_String net_url) (dedupeUrls net_url ?xs))
                (url_String net_url (exampleUrl ''/a'')) = 1"
    using list by simp
  have pool: "concat (map (spec_link net_url exampleBase) ?anchors) = ?xs"
    by code_simp
  have queries: "Find ?d ''a'' = Inr (Some \<lparr>Nodes = ?anchors\<rparr>) \<and> Url ?d = Some exampleBase"
    "Find ?e ''img'' = Inr (Some \<lparr>Nodes = ?imgs\<rparr>) \<and> Find ?e ''script'' = Inr (Some \<lparr>Nodes = ?scripts\<rparr>)
       \<and> Find ?e ''link'' = Inr (Some \<lparr>Nodes = ?links\<rparr>) \<and> Url ?e = Some exampleBase"
    by (simp_all add: exampleDoc_def)
  have "extractLinks net_url (Some ?d)
          = Inr (firstOccurrences (url_String net_url)
                   (concat (map (spec_link net_url exampleBase) (Nodes \<lparr>Nodes = ?anchors\<rparr>))), None)"
    using list queries(1) by blast
  moreover have "firstOccurrences (url_String net_url)
                   (concat (map (spec_link net_url exampleBase) (Nodes \<lparr>Nodes = ?anchors\<rparr>)))
                 = [exampleUrl ''/a'', exampleUrl ''/dir/b'']"
    by code_simp
  ultimately have links: "extractLinks net_url (Some ?d) = Inr ([exampleUrl ''/a'', exampleUrl ''/dir/b''], None)"
    by (simp only:)
  have "extractAssets net_url (Some ?e)
          = Inr (firstOccurrences (url_String net_url)
                   (concat (map (firstGoodSrc net_url exampleBase) (Nodes \<lparr>Nodes = ?imgs\<rparr>))
                    @ concat (map (firstGoodSrc net_url exampleBase) (Nodes \<lparr>Nodes = ?scripts\<rparr>))
                    @ concat (map (spec_linkAsset net_url exampleBase) (Nodes \<lparr>Nodes = ?links\<rparr>))), None)"
    using assets queries(2) by blast
  moreover have "firstOccurrences (url_String net_url)
                   (concat (map (firstGoodSrc net_url exampleBase) (Nodes \<lparr>Nodes = ?imgs\<rparr>))
                    @ concat (map (firstGoodSrc net_url exampleBase) (Nodes \<lparr>Nodes = ?scripts\<rparr>))
                    @ concat (map (spec_linkAsset net_url exampleBase) (Nodes \<lparr>Nodes = ?links\<rparr>)))
                 = [exampleUrl ''/dir/x.js'', exampleUrl ''/dir/y.js'', exampleUrl ''/dir/i.ico'']"
    by code_simp
  ultimately have found: "extractAssets net_url (Some ?e)
       = Inr ([exampleUrl ''/dir/x.js'', exampleUrl ''/dir/y.js'', exampleUrl ''/dir/i.ico''], None)"
    by (simp only:)
  have "distinct (map (url_String net_url) [exampleUrl ''/a'', exampleUrl ''/dir/b''])"
    using list links by blast
  with first once pool links found show ?thesis
    by (simp only: simp_thms)
qed

section \<open>Empty href on a link node (claim C9)\<close>

lemma stripFragment_empty: "stripFragment '''' = ''''"
  by (simp add: stripFragment_absent)

lemma srcLoop_all_empty:
  "(\<forall>a \<in> set as. Key a = ''src'' \<longrightarrow> Val a = '''') \<Longrightarrow> srcLoop lib parent as assets = assets"
  by (induction as) auto

lemma normaliseUrl_empty:
  "normaliseUrl lib parent '''' = map_option (url_ResolveReference lib parent) (url_Parse lib '''')"
  by (simp add: normaliseUrl_def stripFragment_empty split: option.splits)

lemma Parse_empty:
  "Parse '''' = Some \<lparr>Scheme = '''', Host = '''', Path = '''', RawQuery = '''', Fragment = ''''\<rparr>"
  by (simp add: Parse_def cut_def getScheme_def)

lemma ResolveReference_empty:
  "ResolveReference base \<lparr>Scheme = '''', Host = '''', Path = '''', RawQuery = '''', Fragment = ''''\<rparr>
     = base\<lparr>Fragment := ''''\<rparr>"
  by (cases base) (simp add: ResolveReference_def)

lemma normaliseUrl_net_url_empty: "normaliseUrl net_url base '''' = Some (base\<lparr>Fragment := ''''\<rparr>)"
  by (simp add: normaliseUrl_empty net_url_def Parse_empty ResolveReference_empty)

lemma linkNode_empty_href:
  assumes "lastVal ''href'' (Attr nd) = Some ''''"
    and "(valOr (lastVal ''rel'' (Attr nd)) = ''stylesheet''
            \<and> valOr (lastVal ''type'' (Attr nd)) = ''text/css'')
         \<or> valOr (lastVal ''rel'' (Attr nd)) = ''shortcut icon''"
  shows "linkNode lib parent nd acc
           = acc @ (case normaliseUrl lib parent '''' of None \<Rightarrow> [] | Some uri \<Rightarrow> [uri])"
  using assms by (auto simp: linkNode_spec spec_linkAsset_def Let_def split: option.splits)

text \<open>
  Claim C9 says that a \<^verbatim>\<open>link\<close> node with an empty \<^verbatim>\<open>href\<close> and an accepted
  \<^verbatim>\<open>rel\<close>/\<^verbatim>\<open>type\<close> combination makes asset extraction emit the document's
  origin URL itself. What is emitted is the empty reference resolved against
  the origin, and resolution gives the result the fragment of the reference,
  not that of the base: for a page fetched as \<^verbatim>\<open>http://example.com/dir/#top\<close>
  the asset is \<^verbatim>\<open>http://example.com/dir/\<close>, which is not the origin.
\<close>

theorem empty_href_link_drops_origin_fragment:
  "extractAssets net_url
     (Some ((exampleDoc [] [] [] [element 0 ''link'' [attr ''rel'' ''shortcut icon'', attr ''href'' '''']])
              \<lparr>Url := Some (exampleBase\<lparr>Fragment := ''top''\<rparr>)\<rparr>))
     = Inr ([exampleBase], None)
   \<and> String exampleBase = ''http://example.com/dir/''
   \<and> String (exampleBase\<lparr>Fragment := ''top''\<rparr>) = ''http://example.com/dir/#top''"
  by code_simp

text \<open>
  Claim C9, as the code has it: for every \<^verbatim>\<open>link\<close> node whose \<^verbatim>\<open>href\<close>, read
  last-wins, is the empty string and whose \<^verbatim>\<open>rel\<close>/\<^verbatim>\<open>type\<close> values match an
  accepted combination, the link pass does not reject the empty \<^verbatim>\<open>href\<close>
  (the image and script passes do skip an empty \<^verbatim>\<open>src\<close>): whatever the URL
  library, the node contributes what \<^verbatim>\<open>normaliseUrl\<close> gives for the empty
  string, the empty reference parsed and resolved against the origin. In the
  modelled library that is the origin with its fragment removed, and the
  assets of a document holding such a node contain its canonical string; it is
  the origin itself exactly when the origin has no fragment.
\<close>

theorem empty_href_link_resolves_empty_reference:
  assumes href: "lastVal ''href'' (Attr nd) = Some ''''"
    and accepted: "(valOr (lastVal ''rel'' (Attr nd)) = ''stylesheet''
                     \<and> valOr (lastVal ''type'' (Attr nd)) = ''text/css'')
                   \<or> valOr (lastVal ''rel'' (Attr nd)) = ''shortcut icon''"
  shows "linkNode lib parent nd acc
           = acc @ (case normaliseUrl lib parent '''' of None \<Rightarrow> [] | Some uri \<Rightarrow> [uri])
         \<and> normaliseUrl lib parent ''''
             = map_option (url_ResolveReference lib parent) (url_Parse lib '''')
         \<and> linkNode net_url base nd assets = assets @ [base\<lparr>Fragment := ''''\<rparr>]
         \<and> ((base\<lparr>Fragment := ''''\<rparr> = base) = (Fragment base = ''''))
         \<and> (\<forall>imgs scripts links.
               Find d ''img'' = Inr (Some imgs) \<and> Find d ''script'' = Inr (Some scripts)
               \<and> Find d ''link'' = Inr (Some links) \<and> Url d = Some base
               \<and> Some nd \<in> set (Nodes links) \<longrightarrow>
                 (\<exists>out. extractAssets net_url (Some d) = Inr (out, None)
                        \<and> String (base\<lparr>Fragment := ''''\<rparr>) \<in> String ` set out))
         \<and> ((\<forall>a \<in> set as. Key a = ''src'' \<longrightarrow> Val a = '''') \<longrightarrow> srcLoop lib parent as acc = acc)"
proof (intro conjI allI impI)
  show "linkNode lib parent nd acc
          = acc @ (case normaliseUrl lib parent '''' of None \<Rightarrow> [] | Some uri \<Rightarrow> [uri])"
    using href accepted by (rule linkNode_empty_href)
  show "normaliseUrl lib parent '''' = map_option (url_ResolveReference lib parent) (url_Parse lib '''')"
    by (rule normaliseUrl_empty)
  show node: "linkNode net_url base nd assets = assets @ [base\<lparr>Fragment := ''''\<rparr>]" for assets
    using linkNode_empty_href[OF href accepted, of net_url base assets]
    by (simp add: normaliseUrl_net_url_empty)
  show "(base\<lparr>Fragment := ''''\<rparr> = base) = (Fragment base = '''')"
    by (cases base) auto
next
  fix imgs scripts links
  assume given: "Find d ''img'' = Inr (Some imgs) \<and> Find d ''script'' = Inr (Some scripts)
               \<and> Find d ''link'' = Inr (Some links) \<and> Url d = Some base
               \<and> Some nd \<in> set (Nodes links)"
  let ?u = "base\<lparr>Fragment := ''''\<rparr>"
  let ?pool = "linkNodes net_url base (Nodes links)
                 (srcNodes net_url base (Nodes scripts) (srcNodes net_url base (Nodes imgs) []))"
  have "linkNode net_url base nd [] = [] @ [?u]"
    using linkNode_empty_href[OF href accepted, of net_url base "[]"]
    by (simp add: normaliseUrl_net_url_empty)
  then have "spec_linkAsset net_url base (Some nd) = [?u]"
    by (simp add: linkNode_spec)
  then have "?u \<in> set (concat (map (spec_linkAsset net_url base) (Nodes links)))"
    using given by (force simp: set_concat)
  then have "?u \<in> set ?pool"
    by (simp add: linkNodes_concat)
  then have "url_String net_url ?u \<in> url_String net_url ` set (dedupeUrls net_url ?pool)"
    unfolding dedupeUrls_keys by (rule imageI)
  then have "String ?u \<in> String ` set (dedupeUrls net_url ?pool)"
    by (simp add: net_url_def)
  moreover have "extractAssets net_url (Some d) = Inr (dedupeUrls net_url ?pool, None)"
    using given by (simp add: extractAssets_set)
  ultimately show "\<exists>out. extractAssets net_url (Some d) = Inr (out, None)
                        \<and> String ?u \<in> String ` set out"
    by blast
next
  assume "\<forall>a \<in> set as. Key a = ''src'' \<longrightarrow> Val a = ''''"
  then show "srcLoop lib parent as acc = acc"
    by (rule srcLoop_all_empty)
qed

text \<open>
  A page at \<^verbatim>\<open>http://example.com/dir/\<close> whose only asset reference is
  \<^verbatim>\<open><link rel="shortcut icon" href="">\<close>, beside an image with an empty
  \<^verbatim>\<open>src\<close>: the assets are the page's own URL. The same page fetched with the
  fragment \<^verbatim>\<open>#top\<close> gives the same asset.
\<close>

theorem empty_href_link_resolves_empty_reference_witness:
  "lastVal ''href'' (Attr (elementNode 0 ''link'' [attr ''rel'' ''shortcut icon'', attr ''href'' ''''])) = Some ''''
   \<and> linkNode net_url exampleBase
        (elementNode 0 ''link'' [attr ''rel'' ''shortcut icon'', attr ''href'' '''']) []
      = [exampleBase]
   \<and> linkNode net_url (exampleBase\<lparr>Fragment := ''top''\<rparr>)
        (elementNode 0 ''link'' [attr ''rel'' ''shortcut icon'', attr ''href'' '''']) []
      = [exampleBase]
   \<and> extractAssets net_url
        (Some (exampleDoc [] [element 0 ''img'' [attr ''src'' '''']] []
                 [element 0 ''link'' [attr ''rel'' ''shortcut icon'', attr ''href'' '''']]))
      = Inr ([exampleBase], None)
   \<and> srcLoop net_url exampleBase [attr ''src'' ''''] [] = []"
proof -
  let ?nd = "elementNode 0 ''link'' [attr ''rel'' ''shortcut icon'', attr ''href'' '''']"
  let ?d = "exampleDoc [] [element 0 ''img'' [attr ''src'' '''']] [] [Some ?nd]"
  have href: "lastVal ''href'' (Attr ?nd) = Some ''''"
    by code_simp
  have accepted: "(valOr (lastVal ''rel'' (Attr ?nd)) = ''stylesheet''
                     \<and> valOr (lastVal ''type'' (Attr ?nd)) = ''text/css'')
                   \<or> valOr (lastVal ''rel'' (Attr ?nd)) = ''shortcut icon''"
    by code_simp
  note fact = empty_href_link_resolves_empty_reference[OF href accepted,
      of net_url exampleBase "[]" exampleBase "[]" ?d "[attr ''src'' '''']"]
  note frag = empty_href_link_resolves_empty_reference[OF href accepted,
      of net_url exampleBase "[]" "exampleBase\<lparr>Fragment := ''top''\<rparr>" "[]" ?d "[]"]
  have plain: "exampleBase\<lparr>Fragment := ''''\<rparr> = exampleBase"
    "exampleBase\<lparr>Fragment := ''top'', Fragment := ''''\<rparr> = exampleBase"
    by (simp_all add: exampleBase_def exampleUrl_def)
  have src: "\<forall>a \<in> set [attr ''src'' '''']. Key a = ''src'' \<longrightarrow> Val a = ''''"
    by (simp add: attr_def)
  have "linkNode net_url exampleBase ?nd [] = [] @ [exampleBase\<lparr>Fragment := ''''\<rparr>]"
    by (rule fact[THEN conjunct2, THEN conjunct2, THEN conjunct1])
  then have a: "linkNode net_url exampleBase ?nd [] = [exampleBase]"
    using plain by simp
  have "linkNode net_url (exampleBase\<lparr>Fragment := ''top''\<rparr>) ?nd []
          = [] @ [exampleBase\<lparr>Fragment := ''top'', Fragment := ''''\<rparr>]"
    by (rule frag[THEN conjunct2, THEN conjunct2, THEN conjunct1])
  then have b: "linkNode net_url (exampleBase\<lparr>Fragment := ''top''\<rparr>) ?nd [] = [exampleBase]"
    using plain by simp
  have c: "srcLoop net_url exampleBase [attr ''src'' ''''] [] = []"
    using fact src by blast
  have e: "extractAssets net_url (Some ?d) = Inr ([exampleBase], None)"
    by code_simp
  from href a b c e show ?thesis
    by (simp only: element_def simp_thms)
qed

section \<open>Degenerate documents (claim C2)\<close>




section \<open>Absolute results (claim C8)\<close>

lemma ResolveReference_scheme:
  "Scheme (ResolveReference b r) = (if Scheme r \<noteq> '''' then Scheme r else Scheme b)"
  by (simp add: ResolveReference_def)

lemma ResolveReference_host:
  "Scheme r = '''' \<Longrightarrow> Host r = '''' \<Longrightarrow> Host (ResolveReference b r) = Host b"
  by (simp add: ResolveReference_def)

text \<open>
  Claim C8: for every relative path \<open>p\<close> and every absolute base \<open>b\<close>, the
  normalizer yields an absolute URL whose scheme and authority are those of
  \<open>b\<close>; and every URL the normalizer returns is absolute. This is a property
  of reference resolution, stated here for the modelled URL library: against an
  absolute base, whatever \<^verbatim>\<open>normaliseUrl\<close> returns has a scheme, and a raw string
  that parses to a reference with neither scheme nor authority is resolved, to
  a URL with the scheme and the authority of the base.
\<close>

theorem normaliseUrl_absolute:
  "IsAbs b \<Longrightarrow>
     (\<forall>u. normaliseUrl net_url b raw = Some u \<longrightarrow> IsAbs u)
     \<and> (isRelativePath raw \<longrightarrow>
          (\<exists>u. normaliseUrl net_url b raw = Some u \<and> IsAbs u
                 \<and> Scheme u = Scheme b \<and> Host u = Host b))"
  by (auto simp: normaliseUrl_def net_url_def IsAbs_def isRelativePath_def
        ResolveReference_scheme ResolveReference_host split: option.splits)

theorem normaliseUrl_absolute_witness:
  "IsAbs exampleBase \<and> isRelativePath ''../img/logo.png?v=2#top''
   \<and> normaliseUrl net_url exampleBase ''../img/logo.png?v=2#top''
      = Some \<lparr>Scheme = ''http'', Host = ''example.com'', Path = ''/img/logo.png'',
               RawQuery = ''v=2'', Fragment = ''''\<rparr>
   \<and> IsAbs \<lparr>Scheme = ''http'', Host = ''example.com'', Path = ''/img/logo.png'',
               RawQuery = ''v=2'', Fragment = ''''\<rparr>
   \<and> normaliseUrl net_url exampleBase ''//cdn.example.org/x.js''
      = Some \<lparr>Scheme = ''http'', Host = ''cdn.example.org'', Path = ''/x.js'',
               RawQuery = '''', Fragment = ''''\<rparr>"
proof -
  let ?u = "\<lparr>Scheme = ''http'', Host = ''example.com'', Path = ''/img/logo.png'',
               RawQuery = ''v=2'', Fragment = ''''\<rparr>"
  have abs: "IsAbs exampleBase"
    by code_simp
  have rel: "isRelativePath ''../img/logo.png?v=2#top''"
    by code_simp
  have a: "normaliseUrl net_url exampleBase ''../img/logo.png?v=2#top'' = Some ?u"
    by code_simp
  have b: "normaliseUrl net_url exampleBase ''//cdn.example.org/x.js''
      = Some \<lparr>Scheme = ''http'', Host = ''cdn.example.org'', Path = ''/x.js'',
               RawQuery = '''', Fragment = ''''\<rparr>"
    by code_simp
  have "IsAbs ?u"
    using normaliseUrl_absolute[OF abs, of "''../img/logo.png?v=2#top''"] a by blast
  with abs rel a b show ?thesis
    by (simp only: simp_thms)
qed

end
